theory Spec2Isabelle
  imports Complex_Main
begin

section \<open>JavaScript primitives used by the sources\<close>

text \<open>
  Strings are lists of 8-bit characters, read as code units below 256; \<open>length\<close> is the
  source's \<^verbatim>\<open>.length\<close>. The functions of this section are the library calls the
  sources make: \<^verbatim>\<open>Array.prototype.slice\<close>, \<^verbatim>\<open>String.prototype.trim\<close>,
  \<^verbatim>\<open>startsWith\<close>, \<^verbatim>\<open>split\<close>, \<^verbatim>\<open>parseInt\<close>, \<^verbatim>\<open>join\<close> and the
  conversion of a number to text that a template literal performs.
\<close>

text \<open>\<^verbatim>\<open>xs.slice(start, end)\<close> on integer arguments; \<open>None\<close> is an omitted \<^verbatim>\<open>end\<close>.
  A negative index counts from the end and both are clamped to the array.\<close>

definition js_slice :: "'a list \<Rightarrow> int \<Rightarrow> int option \<Rightarrow> 'a list" where
  "js_slice xs start fin =
     (let len = int (length xs);
          k = (if start < 0 then max (len + start) 0 else min start len);
          e = (case fin of
                 None \<Rightarrow> len
               | Some f \<Rightarrow> (if f < 0 then max (len + f) 0 else min f len))
      in take (nat (e - k)) (drop (nat k) xs))"

text \<open>White space of \<^verbatim>\<open>trim\<close> among the code units below 256: tab, line feed, vertical
  tab, form feed, carriage return, space and no-break space.\<close>

definition is_js_whitespace :: "char \<Rightarrow> bool" where
  "is_js_whitespace c = ((of_char c :: nat) \<in> {9, 10, 11, 12, 13, 32, 160})"

definition trim :: "string \<Rightarrow> string" where
  "trim s = rev (dropWhile is_js_whitespace (rev (dropWhile is_js_whitespace s)))"

definition startsWith :: "string \<Rightarrow> string \<Rightarrow> bool" where
  "startsWith s p = (take (length p) s = p)"

text \<open>\<^verbatim>\<open>parts.join(sep)\<close>.\<close>

fun join :: "string \<Rightarrow> string list \<Rightarrow> string" where
  "join sep [] = []"
| "join sep [p] = p"
| "join sep (p # q # ps) = p @ sep @ join sep (q # ps)"

text \<open>Decimal text of a number, as \<^verbatim>\<open>${n}\<close> gives it for an integer.\<close>

definition digit_char :: "nat \<Rightarrow> char" where
  "digit_char d = char_of (48 + d)"

fun digits_of :: "nat \<Rightarrow> nat \<Rightarrow> string" where
  "digits_of 0 n = [digit_char (n mod 10)]"
| "digits_of (Suc fuel) n =
     (if n < 10 then [digit_char n] else digits_of fuel (n div 10) @ [digit_char (n mod 10)])"

definition string_of_nat :: "nat \<Rightarrow> string" where
  "string_of_nat n = digits_of n n"

definition string_of_int :: "int \<Rightarrow> string" where
  "string_of_int i = (if i < 0 then CHR ''-'' # string_of_nat (nat (- i)) else string_of_nat (nat i))"

text \<open>\<^verbatim>\<open>xs[i]\<close>: \<open>None\<close> is the \<^verbatim>\<open>undefined\<close> of an index out of range.\<close>

definition js_nth :: "'a list \<Rightarrow> nat \<Rightarrow> 'a option" where
  "js_nth xs i = (if i < length xs then Some (xs ! i) else None)"

text \<open>\<^verbatim>\<open>s.split(sep)\<close> for a separator of one character.\<close>

fun split_on :: "char \<Rightarrow> string \<Rightarrow> string list" where
  "split_on sep [] = [[]]"
| "split_on sep (c # cs) =
     (if c = sep then [] # split_on sep cs
      else (case split_on sep cs of
              [] \<Rightarrow> [[c]]
            | p # ps \<Rightarrow> (c # p) # ps))"

text \<open>\<^verbatim>\<open>parseInt(s, 10)\<close>: leading white space, an optional sign, then the longest run of
  decimal digits; \<open>None\<close> is \<^verbatim>\<open>NaN\<close>, the result when there is no digit.\<close>

definition is_digit :: "char \<Rightarrow> bool" where
  "is_digit c = (48 \<le> (of_char c :: nat) \<and> (of_char c :: nat) \<le> 57)"

definition digits_value :: "string \<Rightarrow> nat" where
  "digits_value ds = foldl (\<lambda>a c. 10 * a + (of_char c - 48)) 0 ds"

definition parseInt10 :: "string \<Rightarrow> int option" where
  "parseInt10 s =
     (let t = dropWhile is_js_whitespace s;
          negative = (t \<noteq> [] \<and> hd t = CHR ''-'');
          u = (if t \<noteq> [] \<and> (hd t = CHR ''-'' \<or> hd t = CHR ''+'') then tl t else t);
          ds = takeWhile is_digit u
      in if ds = [] then None
         else Some (if negative then - int (digits_value ds) else int (digits_value ds)))"

text \<open>The remainder operator \<^verbatim>\<open>a % b\<close> on integers and \<^verbatim>\<open>NaN\<close>: the result has the sign of
  the dividend, and is \<^verbatim>\<open>NaN\<close> when an operand is \<^verbatim>\<open>NaN\<close> or the divisor is 0.\<close>

definition js_rem :: "int option \<Rightarrow> int option \<Rightarrow> int option" where
  "js_rem a b =
     (case (a, b) of
        (Some x, Some y) \<Rightarrow> (if y = 0 then None else Some (sgn x * (\<bar>x\<bar> mod \<bar>y\<bar>)))
      | _ \<Rightarrow> None)"

text \<open>\<^verbatim>\<open>xs.findIndex(pred)\<close>: the first index whose element satisfies the predicate, or -1.\<close>

fun findIndex :: "('a \<Rightarrow> bool) \<Rightarrow> 'a list \<Rightarrow> int" where
  "findIndex P [] = - 1"
| "findIndex P (x # xs) =
     (if P x then 0 else (let i = findIndex P xs in if i = - 1 then - 1 else i + 1))"

text \<open>\<^verbatim>\<open>xs.filter(Boolean)\<close> on a list of objects and \<^verbatim>\<open>undefined\<close>: the objects.\<close>

fun filter_Boolean :: "'a option list \<Rightarrow> 'a list" where
  "filter_Boolean [] = []"
| "filter_Boolean (None # xs) = filter_Boolean xs"
| "filter_Boolean (Some x # xs) = x # filter_Boolean xs"

text \<open>A number as a settings field holds it: what \<^verbatim>\<open>parseFloat\<close> gives for the text of a
  number input, a finite decimal or \<^verbatim>\<open>NaN\<close>. The comparison \<^verbatim>\<open>a >= b\<close> is false as soon as
  an operand is \<^verbatim>\<open>NaN\<close>.\<close>

datatype js_number = NaN | Num rat

fun js_ge :: "js_number \<Rightarrow> js_number \<Rightarrow> bool" where
  "js_ge (Num a) (Num b) = (a \<ge> b)"
| "js_ge _ _ = False"

section \<open>Credential gateway: \<^verbatim>\<open>withApiKeyRotation\<close>\<close>

datatype ApiKeyStatus = Valid | Exhausted

text \<open>The two error classes the function throws, each with its message.\<close>

datatype api_error = ApiKeyError string | JsError string

text \<open>
  What a request can reject with, and what any \<^verbatim>\<open>catch (e)\<close> of the sources can receive:
  an \<^verbatim>\<open>Error\<close> object with its message, a string, a number, \<^verbatim>\<open>undefined\<close>,
  \<^verbatim>\<open>null\<close>, or some other object, given by what \<^verbatim>\<open>String(e)\<close> makes of it.
\<close>

datatype js_thrown =
    ErrorObj string
  | ThrownString string
  | ThrownNumber int
  | ThrownUndefined
  | ThrownNull
  | ThrownObject string

text \<open>Truthiness, as \<^verbatim>\<open>if (lastError)\<close> tests it: objects are truthy, the empty string, 0,
  \<^verbatim>\<open>undefined\<close> and \<^verbatim>\<open>null\<close> are not.\<close>

fun truthy :: "js_thrown \<Rightarrow> bool" where
  "truthy (ErrorObj m) = True"
| "truthy (ThrownString s) = (s \<noteq> [])"
| "truthy (ThrownNumber n) = (n \<noteq> 0)"
| "truthy ThrownUndefined = False"
| "truthy ThrownNull = False"
| "truthy (ThrownObject s) = True"

text \<open>\<^verbatim>\<open>e instanceof Error ? e.message : String(e)\<close>.\<close>

fun error_message :: "js_thrown \<Rightarrow> string" where
  "error_message (ErrorObj m) = m"
| "error_message (ThrownString s) = s"
| "error_message (ThrownNumber n) = string_of_int n"
| "error_message ThrownUndefined = ''undefined''"
| "error_message ThrownNull = ''null''"
| "error_message (ThrownObject s) = s"

text \<open>Observable effects, in the order they happen: the calls of \<^verbatim>\<open>onActiveKeyUpdate\<close>,
  the console warning of a skipped key, the call of the request function with a client bound
  to a key, and the console error of a failed call.\<close>

datatype gw_event =
    ActiveKey "nat option"
  | Skipped nat
  | Requested nat string
  | Failed nat string

record rotation_state =
  lastError :: "js_thrown option"
  lastErrorKeyInfo :: "int \<times> string"
  validationErrors :: "string list"
  events :: "gw_event list"

definition initial_rotation :: rotation_state where
  "initial_rotation =
     \<lparr>lastError = None, lastErrorKeyInfo = (- 1, []), validationErrors = [], events = []\<rparr>"

definition skip_message :: "nat \<Rightarrow> string" where
  "skip_message index =
     ''Skipping key at index '' @ string_of_nat index @ '' because it appears to be invalid.''"

text \<open>The local format check of the loop body: the key is skipped when this is false.\<close>

definition passes_validation :: "string \<Rightarrow> bool" where
  "passes_validation key = (\<not> (length key < 30 \<or> \<not> startsWith key ''AIza''))"

text \<open>
  The \<^verbatim>\<open>for\<close> loop over \<^verbatim>\<open>keysToTry\<close>. The request function takes the key its client
  is bound to and the state of the outside world, and gives a result or a rejection and the
  new state of the world. \<open>Some result\<close> is the \<^verbatim>\<open>return result\<close> inside the loop, \<open>None\<close>
  is leaving the loop at its end.
\<close>

fun rotation_loop ::
  "(string \<Rightarrow> 'w \<Rightarrow> (js_thrown + 'a) \<times> 'w) \<Rightarrow> (string \<times> nat) list \<Rightarrow> rotation_state \<Rightarrow> 'w
     \<Rightarrow> 'a option \<times> rotation_state \<times> 'w" where
  "rotation_loop apiCall [] s w = (None, s, w)"
| "rotation_loop apiCall ((key, index) # rest) s w =
     (if \<not> passes_validation key then
        rotation_loop apiCall rest
          (s\<lparr>validationErrors := validationErrors s @ [skip_message index],
             events := events s @ [Skipped index]\<rparr>) w
      else
        (case apiCall key w of
           (Inr result, w') \<Rightarrow>
             (Some result,
              s\<lparr>events := events s @ [ActiveKey (Some index), Requested index key, ActiveKey None]\<rparr>,
              w')
         | (Inl e, w') \<Rightarrow>
             rotation_loop apiCall rest
               (s\<lparr>lastError := Some e,
                  lastErrorKeyInfo := (int index, key),
                  events := events s @
                    [ActiveKey (Some index), Requested index key, Failed index (error_message e)]\<rparr>)
               w'))"

text \<open>The filter of \<^verbatim>\<open>keysToTry\<close>, \<^verbatim>\<open>k.key && k.key.trim()\<close>: both strings are truthy,
  that is non-empty.\<close>

definition is_candidate :: "string \<Rightarrow> bool" where
  "is_candidate key = (key \<noteq> [] \<and> trim key \<noteq> [])"

definition keysToTry :: "string list \<Rightarrow> (string \<times> nat) list" where
  "keysToTry apiKeys =
     filter (\<lambda>(key, index). is_candidate key) (zip apiKeys [0..<length apiKeys])"

definition keySnippet :: "string \<Rightarrow> string" where
  "keySnippet key =
     (if length key > 8 then js_slice key 0 (Some 4) @ ''...'' @ js_slice key (- 4) None else key)"

definition no_key_message :: string where
  "no_key_message = ''No API Key has been configured. Please go to Settings, add a valid Gemini API key, and apply your changes.''"

definition all_invalid_message :: string where
  "all_invalid_message = ''All configured API keys failed client-side validation and were skipped. Please check your keys in Settings.''"

definition all_failed_message :: string where
  "all_failed_message = ''All available API keys failed. Please check your keys in Settings and your network connection.''"

definition call_failed_message :: "int \<Rightarrow> string \<Rightarrow> string \<Rightarrow> string" where
  "call_failed_message index snippet raw =
     ''API call failed using key at index '' @ string_of_int index @ '' (key: '' @ snippet
       @ ''). Raw Error: '' @ raw"

text \<open>The whole function: the outcome (\<open>Inl\<close> what it throws, \<open>Inr\<close> what it returns), the
  effects in order, and the world after it. \<open>lastError\<close> is \<open>None\<close> while it holds its initial
  \<^verbatim>\<open>null\<close>; the test \<^verbatim>\<open>if (lastError)\<close> fails for that and for a falsy rejection value,
  and the two checks after it are then reached.\<close>

definition withApiKeyRotation ::
  "string list \<Rightarrow> ApiKeyStatus list option \<Rightarrow> (string \<Rightarrow> 'w \<Rightarrow> (js_thrown + 'a) \<times> 'w) \<Rightarrow> 'w
     \<Rightarrow> (api_error + 'a) \<times> gw_event list \<times> 'w" where
  "withApiKeyRotation apiKeys apiKeyStatuses apiCall w =
     (let ks = keysToTry apiKeys in
      if length ks = 0 then (Inl (ApiKeyError no_key_message), [], w)
      else
        (case rotation_loop apiCall ks initial_rotation w of
           (Some result, s, w') \<Rightarrow> (Inr result, events s, w')
         | (None, s, w') \<Rightarrow>
             (let evs = events s @ [ActiveKey None];
                  after_test =
                    (if length (validationErrors s) > 0 \<and> length (validationErrors s) = length ks
                     then (Inl (ApiKeyError all_invalid_message), evs, w')
                     else (Inl (JsError all_failed_message), evs, w'))
              in case lastError s of
                   None \<Rightarrow> after_test
                 | Some e \<Rightarrow>
                     if truthy e
                     then (Inl (JsError (call_failed_message (fst (lastErrorKeyInfo s))
                                   (keySnippet (snd (lastErrorKeyInfo s))) (error_message e))),
                           evs, w')
                     else after_test)))"

text \<open>The keys the request function was called with, with their indices, in order.\<close>

fun request_of :: "gw_event \<Rightarrow> (nat \<times> string) list" where
  "request_of (Requested i k) = [(i, k)]"
| "request_of _ = []"

definition requests_of :: "gw_event list \<Rightarrow> (nat \<times> string) list" where
  "requests_of evs = concat (map request_of evs)"

text \<open>A well-formed credential: it survives the filter of \<^verbatim>\<open>keysToTry\<close> (non-empty, and
  non-empty after trimming) and passes the local format check.\<close>

definition well_formed :: "string \<Rightarrow> bool" where
  "well_formed key = (is_candidate key \<and> passes_validation key)"

text \<open>Request functions and credential lists used as concrete inputs below.\<close>

definition example_keys :: "string list" where
  "example_keys = [''short'', ''AIzaVALIDLOOKINGKEYXXXXXXXXXXXXXXXX'']"

definition blank_keys :: "string list" where
  "blank_keys = [[], ''  '']"

definition malformed_keys :: "string list" where
  "malformed_keys = [''short'', ''  '', ''AIzaTooShort'']"



definition always_answers :: "string \<Rightarrow> nat \<Rightarrow> (js_thrown + string) \<times> nat" where
  "always_answers key calls = (Inr (''answer for '' @ key), Suc calls)"

text \<open>The world after the requests for the given candidates, made in order, and the
  candidates of a list that pass the format check.\<close>

definition world_after ::
  "(string \<Rightarrow> 'w \<Rightarrow> (js_thrown + 'a) \<times> 'w) \<Rightarrow> 'w \<Rightarrow> (string \<times> nat) list \<Rightarrow> 'w" where
  "world_after apiCall w ks = foldl (\<lambda>w0 (key, index). snd (apiCall key w0)) w ks"

definition attempted :: "string list \<Rightarrow> (string \<times> nat) list" where
  "attempted apiKeys = filter (\<lambda>(key, index). passes_validation key) (keysToTry apiKeys)"

section \<open>Turn store: \<^verbatim>\<open>App.tsx\<close>\<close>

datatype TurnRole = student | teacher | validator | system | user | starter

datatype SessionState = idle | starting | running_auto | paused_user_input | finished | working

datatype Rating = GOOD | COMPLEX | OFF_TOPIC

record ValidatorFeedback =
  rating :: Rating
  feedback_text :: string

record FunctionCall =
  call_name :: string
  call_args :: string

record Attachment =
  att_name :: string
  att_is_image :: bool
  att_mimeType :: string
  att_data :: string

text \<open>
  A turn object as it is at run time: every property may be missing (\<open>None\<close> reads as
  \<^verbatim>\<open>undefined\<close>), which is also the shape of a \<^verbatim>\<open>Partial<Turn>\<close>. The properties
  \<^verbatim>\<open>discussionTurns\<close> and \<^verbatim>\<open>generatedImages\<close> are never read or written by the
  functions below and are left out; \<^verbatim>\<open>groundingMetadata\<close> is kept as its text.
\<close>

record Turn =
  turn_id :: "string option"
  role :: "TurnRole option"
  content :: "string option"
  modelName :: "string option"
  isStreaming :: "bool option"
  feedback :: "ValidatorFeedback option"
  groundingMetadata :: "string option"
  functionCall :: "FunctionCall option"
  isRephrased :: "bool option"
  attachments :: "Attachment list option"

definition empty_object :: Turn where
  "empty_object =
     \<lparr>turn_id = None, role = None, content = None, modelName = None, isStreaming = None,
      feedback = None, groundingMetadata = None, functionCall = None, isRephrased = None,
      attachments = None\<rparr>"

text \<open>The object spread \<^verbatim>\<open>{ ...a, ...b }\<close>: a property of \<open>b\<close> that is present wins. A
  property that \<open>b\<close> carries with the value \<^verbatim>\<open>undefined\<close> or \<^verbatim>\<open>null\<close> is written as
  absent here, so it does not erase the property of \<open>a\<close> as it would in the source. The
  updates of the functions below carry such a property only in \<^verbatim>\<open>runAgentTurn\<close>
  (\<^verbatim>\<open>groundingMetadata\<close>, \<^verbatim>\<open>functionCall\<close>), on the placeholder turn just created, which
  has neither.\<close>

definition spread_field :: "'a option \<Rightarrow> 'a option \<Rightarrow> 'a option" where
  "spread_field x y = (case y of None \<Rightarrow> x | Some v \<Rightarrow> Some v)"

definition spread :: "Turn \<Rightarrow> Turn \<Rightarrow> Turn" where
  "spread a b =
     \<lparr>turn_id = spread_field (turn_id a) (turn_id b),
      role = spread_field (role a) (role b),
      content = spread_field (content a) (content b),
      modelName = spread_field (modelName a) (modelName b),
      isStreaming = spread_field (isStreaming a) (isStreaming b),
      feedback = spread_field (feedback a) (feedback b),
      groundingMetadata = spread_field (groundingMetadata a) (groundingMetadata b),
      functionCall = spread_field (functionCall a) (functionCall b),
      isRephrased = spread_field (isRephrased a) (isRephrased b),
      attachments = spread_field (attachments a) (attachments b)\<rparr>"

text \<open>The two pieces of state \<^verbatim>\<open>turns\<close> (a record from id to turn) and \<^verbatim>\<open>turnOrder\<close>.\<close>

record store =
  turns :: "string \<rightharpoonup> Turn"
  turnOrder :: "string list"

text \<open>\<^verbatim>\<open>addTurn\<close>; the first argument is what \<^verbatim>\<open>uuidv4()\<close> gives. It returns the new turn
  object and the store after both state setters have run.\<close>

definition addTurn :: "string \<Rightarrow> Turn \<Rightarrow> store \<Rightarrow> Turn \<times> store" where
  "addTurn uuid turn st =
     (let newTurn = turn\<lparr>turn_id := Some uuid\<rparr>
      in (newTurn,
          st\<lparr>turns := (turns st)(uuid \<mapsto> newTurn), turnOrder := turnOrder st @ [uuid]\<rparr>))"

text \<open>\<^verbatim>\<open>updateTurn\<close>: \<^verbatim>\<open>[id]: { ...prev[id], ...updates }\<close>, where spreading the
  \<^verbatim>\<open>undefined\<close> of an absent id contributes no property.\<close>

definition updateTurn :: "string \<Rightarrow> Turn \<Rightarrow> store \<Rightarrow> store" where
  "updateTurn ident updates st =
     st\<lparr>turns := (turns st)(ident \<mapsto>
           spread (case turns st ident of None \<Rightarrow> empty_object | Some t \<Rightarrow> t) updates)\<rparr>"

definition removeTurn :: "string \<Rightarrow> store \<Rightarrow> store" where
  "removeTurn ident st =
     st\<lparr>turns := (turns st)(ident := None),
        turnOrder := filter (\<lambda>turnId. turnId \<noteq> ident) (turnOrder st)\<rparr>"

subsection \<open>Context window: \<^verbatim>\<open>getContextString\<close>\<close>

datatype ContextWindow = short | medium | long

fun CONTEXT_WINDOW_SIZES :: "ContextWindow \<Rightarrow> int" where
  "CONTEXT_WINDOW_SIZES short = 4"
| "CONTEXT_WINDOW_SIZES medium = 8"
| "CONTEXT_WINDOW_SIZES long = 12"

fun role_text :: "TurnRole \<Rightarrow> string" where
  "role_text student = ''student''"
| "role_text teacher = ''teacher''"
| "role_text validator = ''validator''"
| "role_text system = ''system''"
| "role_text user = ''user''"
| "role_text starter = ''starter''"

text \<open>What a template literal prints for a property: its text, or \<^verbatim>\<open>undefined\<close>.\<close>

definition template_role :: "TurnRole option \<Rightarrow> string" where
  "template_role r = (case r of None \<Rightarrow> ''undefined'' | Some x \<Rightarrow> role_text x)"

definition template_text :: "string option \<Rightarrow> string" where
  "template_text c = (case c of None \<Rightarrow> ''undefined'' | Some x \<Rightarrow> x)"

text \<open>The template \<^verbatim>\<open>`[${t.role}]\n${t.content}`\<close>.\<close>

definition render_turn :: "Turn \<Rightarrow> string" where
  "render_turn t = ''['' @ template_role (role t) @ '']'' @ [CHR 0x0A] @ template_text (content t)"

definition getContextString :: "ContextWindow \<Rightarrow> store \<Rightarrow> string" where
  "getContextString contextWindow st =
     (let windowSize = CONTEXT_WINDOW_SIZES contextWindow
      in join [CHR 0x0A, CHR 0x0A]
           (map render_turn
              (filter_Boolean
                 (map (turns st) (js_slice (turnOrder st) (- windowSize) None)))))"

subsection \<open>Streaming assembler: \<^verbatim>\<open>createTurnFromStream\<close>\<close>

text \<open>An asynchronous generator that is pulled to its end: the chunks it yields, and then
  either completion (\<open>None\<close>) or the value it throws.\<close>

record generator =
  chunks :: "string list"
  thrown :: "js_thrown option"

text \<open>One round of the \<^verbatim>\<open>for await\<close> loop, on the pair of \<^verbatim>\<open>fullContent\<close> and the store.\<close>

definition stream_chunk :: "string \<Rightarrow> string \<times> store \<Rightarrow> string \<Rightarrow> string \<times> store" where
  "stream_chunk ident acc chunk =
     (let fullContent = fst acc @ chunk
      in (fullContent, updateTurn ident (empty_object\<lparr>content := Some fullContent\<rparr>) (snd acc)))"

text \<open>The function: \<open>Inl\<close> is the rejection when the generator throws, \<open>Inr\<close> the returned
  pair of the turn (or \<^verbatim>\<open>null\<close>) and \<^verbatim>\<open>fullContent\<close>. The turn returned is the object
  \<^verbatim>\<open>addTurn\<close> made, as it was made.\<close>

definition createTurnFromStream ::
  "string \<Rightarrow> Turn \<Rightarrow> generator \<Rightarrow> store \<Rightarrow> (js_thrown + Turn option \<times> string) \<times> store" where
  "createTurnFromStream uuid turnData gen st =
     (case chunks gen of
        [] \<Rightarrow> (case thrown gen of
                 None \<Rightarrow> (Inr (None, []), st)
               | Some e \<Rightarrow> (Inl e, st))
      | first # rest \<Rightarrow>
          (let (newTurn, st1) =
                 addTurn uuid (turnData\<lparr>content := Some first, isStreaming := Some True\<rparr>) st;
               (fullContent, st2) = foldl (stream_chunk uuid) (first, st1) rest
           in case thrown gen of
                Some e \<Rightarrow> (Inl e, st2)
              | None \<Rightarrow>
                  (Inr (Some newTurn, fullContent),
                   updateTurn uuid (empty_object\<lparr>isStreaming := Some False\<rparr>) st2)))"

subsection \<open>Resend: \<^verbatim>\<open>handleResend\<close> and the start of \<^verbatim>\<open>handleSend\<close>\<close>

record resend_payload =
  payload_content :: "string option"
  payload_attachments :: "Attachment list"

text \<open>The \<^verbatim>\<open>reduce\<close> that rebuilds the turn record from the kept ids.\<close>

definition keep_turn :: "(string \<rightharpoonup> Turn) \<Rightarrow> (string \<rightharpoonup> Turn) \<Rightarrow> string \<Rightarrow> (string \<rightharpoonup> Turn)" where
  "keep_turn old acc ident = (case old ident of None \<Rightarrow> acc | Some t \<Rightarrow> acc(ident \<mapsto> t))"

text \<open>\<^verbatim>\<open>handleResend\<close>: the store after it and the payload it sets, \<open>None\<close> when it returns
  early and sets nothing.\<close>

definition handleResend :: "string \<Rightarrow> store \<Rightarrow> store \<times> resend_payload option" where
  "handleResend turnId st =
     (case turns st turnId of
        None \<Rightarrow> (st, None)
      | Some turnToResend \<Rightarrow>
          if role turnToResend \<noteq> Some user then (st, None)
          else
            (let turnIndex = findIndex (\<lambda>ident. ident = turnId) (turnOrder st)
             in if turnIndex = - 1 then (st, None)
                else
                  (let newTurnOrder = js_slice (turnOrder st) 0 (Some turnIndex);
                       newTurns = foldl (keep_turn (turns st)) Map.empty newTurnOrder
                   in (st\<lparr>turnOrder := newTurnOrder, turns := newTurns\<rparr>,
                       Some \<lparr>payload_content = content turnToResend,
                             payload_attachments =
                               (case attachments turnToResend of None \<Rightarrow> [] | Some a \<Rightarrow> a)\<rparr>))))"

text \<open>The effect that runs once the payload is set calls \<^verbatim>\<open>handleSend\<close> with it; this is the
  first statement of \<^verbatim>\<open>handleSend\<close>, which appends the new user turn.\<close>

definition resubmit :: "string \<Rightarrow> resend_payload \<Rightarrow> store \<Rightarrow> Turn \<times> store" where
  "resubmit uuid payload st =
     addTurn uuid
       (empty_object\<lparr>role := Some user, content := payload_content payload,
                      attachments := Some (payload_attachments payload)\<rparr>) st"

subsection \<open>The context window in the words of the specification\<close>

text \<open>The last \<open>n\<close> elements of a list, all of it when it has fewer.\<close>

definition last_n :: "nat \<Rightarrow> 'a list \<Rightarrow> 'a list" where
  "last_n n xs = drop (length xs - n) xs"

text \<open>The turns of the last \<open>n\<close> ids of the order, in that order, an id without a turn in the
  record being passed over.\<close>

definition window_turns :: "nat \<Rightarrow> store \<Rightarrow> Turn list" where
  "window_turns n st =
     concat (map (\<lambda>ident. case turns st ident of None \<Rightarrow> [] | Some t \<Rightarrow> [t]) (last_n n (turnOrder st)))"

definition blank_line :: string where
  "blank_line = [CHR 0x0A, CHR 0x0A]"

text \<open>The context with every turn of the window rendered.\<close>

definition windowedContext :: "nat \<Rightarrow> store \<Rightarrow> string" where
  "windowedContext n st = join blank_line (map render_turn (window_turns n st))"

text \<open>The context as claim C2 words it: a turn whose content is empty is skipped.\<close>

definition has_content :: "Turn \<Rightarrow> bool" where
  "has_content t = (content t \<noteq> None \<and> content t \<noteq> Some [])"

definition windowedContext_skipping_empty :: "nat \<Rightarrow> store \<Rightarrow> string" where
  "windowedContext_skipping_empty n st =
     join blank_line (map render_turn (filter has_content (window_turns n st)))"

subsection \<open>Stores used as concrete inputs\<close>

definition make_turn :: "string \<Rightarrow> TurnRole \<Rightarrow> string \<Rightarrow> Turn" where
  "make_turn ident r c = empty_object\<lparr>turn_id := Some ident, role := Some r, content := Some c\<rparr>"

definition empty_store :: store where
  "empty_store = \<lparr>turns = Map.empty, turnOrder = []\<rparr>"

text \<open>Six turns: three questions and three answers.\<close>

definition six_turns :: store where
  "six_turns =
     \<lparr>turns = map_of
        [(''t1'', make_turn ''t1'' student ''q1''), (''t2'', make_turn ''t2'' teacher ''a1''),
         (''t3'', make_turn ''t3'' student ''q2''), (''t4'', make_turn ''t4'' teacher ''a2''),
         (''t5'', make_turn ''t5'' student ''q3''), (''t6'', make_turn ''t6'' teacher ''a3'')],
      turnOrder = [''t1'', ''t2'', ''t3'', ''t4'', ''t5'', ''t6'']\<rparr>"

text \<open>A question, its answer, and a validator turn as \<^verbatim>\<open>runAgentTurn\<close> leaves it, with the
  empty content it writes next to the feedback.\<close>

definition validated_exchange :: store where
  "validated_exchange =
     \<lparr>turns = map_of
        [(''t1'', make_turn ''t1'' student ''q1''), (''t2'', make_turn ''t2'' teacher ''a1''),
         (''t3'', (make_turn ''t3'' validator [])
                    \<lparr>feedback := Some \<lparr>rating = GOOD, feedback_text = ''clear''\<rparr>\<rparr>)],
      turnOrder = [''t1'', ''t2'', ''t3'']\<rparr>"

text \<open>Two user questions around an answer.\<close>

definition q1_a1_q2 :: store where
  "q1_a1_q2 =
     \<lparr>turns = map_of
        [(''q1'', make_turn ''q1'' user ''first question''),
         (''a1'', make_turn ''a1'' teacher ''first answer''),
         (''q2'', make_turn ''q2'' user ''second question'')],
      turnOrder = [''q1'', ''a1'', ''q2'']\<rparr>"

section \<open>Agent loop: \<^verbatim>\<open>runAgentTurn\<close> and the effect that repeats it\<close>

datatype ValidatorFrequency = disabled | every_turn | every_3_turns | every_5_turns

fun frequency_text :: "ValidatorFrequency \<Rightarrow> string" where
  "frequency_text disabled = ''disabled''"
| "frequency_text every_turn = ''every_turn''"
| "frequency_text every_3_turns = ''every_3_turns''"
| "frequency_text every_5_turns = ''every_5_turns''"

text \<open>The settings the agent loop reads; \<open>model_student\<close>, \<open>model_teacher\<close> and
  \<open>model_validator\<close> are \<^verbatim>\<open>modelSettings.student\<close>, \<^verbatim>\<open>.teacher\<close> and \<^verbatim>\<open>.validator\<close>.
  \<^verbatim>\<open>maxTurns\<close> is whatever number the settings page has parsed from its input.\<close>

record AppSettings =
  maxTurns :: js_number
  validatorFrequency :: ValidatorFrequency
  contextWindow :: ContextWindow
  autoContinueAgent :: bool
  model_student :: string
  model_teacher :: string
  model_validator :: string

text \<open>Lines 476 and 477 of \<^verbatim>\<open>App.tsx\<close>: the number parsed from the second part of the
  frequency's name, \<^verbatim>\<open>'1'\<close> standing in when that part is missing or empty, and the test
  that the count is a multiple of it.\<close>

definition isValidationTurn :: "ValidatorFrequency \<Rightarrow> nat \<Rightarrow> bool" where
  "isValidationTurn frequency currentTeacherTurns =
     (let parts = split_on CHR ''_'' (frequency_text frequency);
          second = (case js_nth parts 1 of
                      None \<Rightarrow> ''1''
                    | Some p \<Rightarrow> (if p = [] then ''1'' else p));
          validatorFrequencyNum = parseInt10 second
      in frequency \<noteq> disabled \<and>
         js_rem (Some (int currentTeacherTurns)) validatorFrequencyNum = Some 0)"

text \<open>What the model service is asked, in order: the arguments of
  \<^verbatim>\<open>getStudentResponseStream\<close>, \<^verbatim>\<open>getTeacherResponse\<close> and \<^verbatim>\<open>getValidatorFeedback\<close>.\<close>

datatype model_call =
    StudentCall string
  | TeacherCall string "string option" "Attachment list option"
  | ValidatorCall string "string option" string

record teacher_response =
  response_text :: string
  response_groundingMetadata :: "string option"
  response_functionCall :: "FunctionCall option"

text \<open>What the outside world gives to one invocation of \<^verbatim>\<open>runAgentTurn\<close>: the ids that
  \<^verbatim>\<open>uuidv4()\<close> returns for the student, teacher and validator turn, and the outcome of each
  of the three calls of the model service, should it be made.\<close>

record exchange_env =
  student_uuid :: string
  teacher_uuid :: string
  validator_uuid :: string
  studentStream :: generator
  teacherResponse :: "js_thrown + teacher_response"
  validatorFeedback :: "js_thrown + ValidatorFeedback"

text \<open>The state of the component that the loop reads and writes.\<close>

record app =
  turn_store :: store
  sessionState :: SessionState
  error :: "string option"
  isAgentRunning :: bool
  calls :: "model_call list"

text \<open>\<^verbatim>\<open>turnOrder.map(id => turns[id]).filter(t => t?.role === 'teacher').length\<close>.\<close>

definition is_teacher :: "Turn option \<Rightarrow> bool" where
  "is_teacher t = (case t of None \<Rightarrow> False | Some x \<Rightarrow> role x = Some teacher)"

definition teacher_count :: "store \<Rightarrow> nat" where
  "teacher_count st = length (filter is_teacher (map (turns st) (turnOrder st)))"

text \<open>
  Inside one invocation, \<^verbatim>\<open>turns\<close> and \<^verbatim>\<open>turnOrder\<close> are the values captured when the
  callback was created: the argument \<open>snap\<close> below. The state setters act on the current
  state, which is threaded through as the \<open>app\<close>.

  First branch of the \<^verbatim>\<open>try\<close> block: the student model is asked for the next question.
\<close>

definition ask_student ::
  "AppSettings \<Rightarrow> exchange_env \<Rightarrow> store \<Rightarrow> app \<Rightarrow> (js_thrown + Turn \<times> string) \<times> app" where
  "ask_student settings env snap a =
     (let contextForTeacher = getContextString (contextWindow settings) snap;
          a0 = a\<lparr>calls := calls a @ [StudentCall contextForTeacher]\<rparr>;
          (r, st1) = createTurnFromStream (student_uuid env)
                       (empty_object\<lparr>role := Some student, modelName := Some (model_student settings)\<rparr>)
                       (studentStream env) (turn_store a0);
          a1 = a0\<lparr>turn_store := st1\<rparr>
      in case r of
           Inl e \<Rightarrow> (Inl e, a1)
         | Inr (None, fullContent) \<Rightarrow>
             (Inl (ErrorObj ''Student model failed to generate a response.''), a1)
         | Inr (Some turn, fullContent) \<Rightarrow> (Inr (turn, contextForTeacher), a1))"

text \<open>The choice of the question turn and of the context for the teacher.\<close>

definition question_phase ::
  "AppSettings \<Rightarrow> exchange_env \<Rightarrow> store \<Rightarrow> app \<Rightarrow> (js_thrown + Turn \<times> string) \<times> app" where
  "question_phase settings env snap a =
     (let lastTurnInState =
            (if length (turnOrder snap) > 0
             then turns snap (turnOrder snap ! (length (turnOrder snap) - 1)) else None)
      in case lastTurnInState of
           None \<Rightarrow> ask_student settings env snap a
         | Some l \<Rightarrow>
             if role l \<in> {Some teacher, Some validator, Some starter}
             then ask_student settings env snap a
             else
               (let windowSize = CONTEXT_WINDOW_SIZES (contextWindow settings);
                    contextForTeacher =
                      join [CHR 0x0A, CHR 0x0A]
                        (map render_turn
                           (filter_Boolean
                              (map (turns snap)
                                 (js_slice (js_slice (turnOrder snap) 0 (Some (- 1)))
                                    (- windowSize) None))))
                in (Inr (l, contextForTeacher), a)))"

text \<open>The validator turn, when one is due.\<close>

definition validation_phase ::
  "AppSettings \<Rightarrow> string \<Rightarrow> exchange_env \<Rightarrow> Turn \<Rightarrow> string \<Rightarrow> app \<Rightarrow> (js_thrown + unit) \<times> app" where
  "validation_phase settings topic env questionTurn text a =
     (let (validatorTurn, st1) =
            addTurn (validator_uuid env)
              (empty_object\<lparr>role := Some validator, content := Some ''Validating...''\<rparr>)
              (turn_store a);
          a1 = a\<lparr>turn_store := st1,
                 calls := calls a @ [ValidatorCall topic (content questionTurn) text]\<rparr>
      in case validatorFeedback env of
           Inl e \<Rightarrow> (Inl e, a1)
         | Inr fb \<Rightarrow>
             (Inr (),
              a1\<lparr>turn_store :=
                    updateTurn (validator_uuid env)
                      (empty_object\<lparr>content := Some [], feedback := Some fb,
                                     modelName := Some (model_validator settings)\<rparr>)
                      (turn_store a1)\<rparr>))"

text \<open>The placeholder teacher turn, the call of the teacher model, and what follows it. The
  id passed to \<^verbatim>\<open>updateTurn\<close> is that of the turn \<^verbatim>\<open>addTurn\<close> has just returned.\<close>

definition answer_phase ::
  "AppSettings \<Rightarrow> string \<Rightarrow> exchange_env \<Rightarrow> store \<Rightarrow> Turn \<Rightarrow> string \<Rightarrow> app
     \<Rightarrow> (js_thrown + unit) \<times> app" where
  "answer_phase settings topic env snap questionTurn contextForTeacher a =
     (let (teacherTurn, st1) =
            addTurn (teacher_uuid env)
              (empty_object\<lparr>role := Some teacher, content := Some ''...'', isStreaming := Some True,
                             modelName := Some (model_teacher settings)\<rparr>)
              (turn_store a);
          a1 = a\<lparr>turn_store := st1,
                 calls := calls a @
                   [TeacherCall contextForTeacher (content questionTurn) (attachments questionTurn)]\<rparr>
      in case teacherResponse env of
           Inl e \<Rightarrow> (Inl e, a1)
         | Inr resp \<Rightarrow>
             (let a2 = a1\<lparr>turn_store :=
                            updateTurn (teacher_uuid env)
                              (empty_object\<lparr>content := Some (response_text resp),
                                             groundingMetadata := response_groundingMetadata resp,
                                             functionCall := response_functionCall resp,
                                             isStreaming := Some False\<rparr>)
                              (turn_store a1)\<rparr>
              in if response_functionCall resp \<noteq> None
                 then (Inr (), a2\<lparr>sessionState := paused_user_input, isAgentRunning := False\<rparr>)
                 else
                   (let currentTeacherTurns = teacher_count snap
                    in if isValidationTurn (validatorFrequency settings) currentTeacherTurns
                       then validation_phase settings topic env questionTurn (response_text resp) a2
                       else (Inr (), a2))))"

text \<open>The \<^verbatim>\<open>try\<close> block.\<close>

definition exchange ::
  "AppSettings \<Rightarrow> string \<Rightarrow> exchange_env \<Rightarrow> store \<Rightarrow> app \<Rightarrow> (js_thrown + unit) \<times> app" where
  "exchange settings topic env snap a =
     (case question_phase settings env snap a of
        (Inl e, a1) \<Rightarrow> (Inl e, a1)
      | (Inr (questionTurn, contextForTeacher), a1) \<Rightarrow>
          answer_phase settings topic env snap questionTurn contextForTeacher a1)"

text \<open>\<^verbatim>\<open>runAgentTurn\<close>: the reentrancy guard, the test of the turn limit, then the
  \<^verbatim>\<open>try\<close> block with its \<^verbatim>\<open>catch\<close> and \<^verbatim>\<open>finally\<close>.\<close>

definition runAgentTurn :: "AppSettings \<Rightarrow> string \<Rightarrow> exchange_env \<Rightarrow> app \<Rightarrow> app" where
  "runAgentTurn settings topic env a =
     (if isAgentRunning a then a
      else
        (let snap = turn_store a;
             teacherTurnsCount = teacher_count snap
         in if js_ge (Num (of_nat teacherTurnsCount)) (maxTurns settings)
            then a\<lparr>sessionState := finished, isAgentRunning := False\<rparr>
            else
              (case exchange settings topic env snap (a\<lparr>isAgentRunning := True\<rparr>) of
                 (Inl e, a1) \<Rightarrow>
                   a1\<lparr>error := Some (error_message e), sessionState := paused_user_input,
                      isAgentRunning := False\<rparr>
               | (Inr u, a1) \<Rightarrow> a1\<lparr>isAgentRunning := False\<rparr>)))"

text \<open>
  The effect that drives the loop in agent mode. It starts a chain of rounds when a render
  has the state \<^verbatim>\<open>running_auto\<close>. A round awaits one invocation of \<^verbatim>\<open>runAgentTurn\<close>
  and then tests \<^verbatim>\<open>isCancelled\<close> and \<^verbatim>\<open>sessionStateRef.current\<close>. Both are written
  only by effects, which run after a re-render, and the continuation of the \<^verbatim>\<open>await\<close> runs
  before React re-renders: the round tests the state that was rendered when it began, not
  the state \<^verbatim>\<open>runAgentTurn\<close> has just set. The arguments \<open>rendered\<close> and \<open>isCancelled\<close> are
  those two values. During the delay before the next round React re-renders: the ref takes
  the current state, and if that differs from the rendered one the effect is cleaned up,
  which sets \<^verbatim>\<open>isCancelled\<close>; the round already scheduled still runs its invocation
  before it tests the flag. The list holds what the outside world gives to each round;
  \<open>None\<close> is a chain that would go on when the list is used up.
\<close>

fun agentLoop ::
  "AppSettings \<Rightarrow> string \<Rightarrow> exchange_env list \<Rightarrow> SessionState \<Rightarrow> bool \<Rightarrow> app \<Rightarrow> app option" where
  "agentLoop settings topic [] rendered isCancelled a = None"
| "agentLoop settings topic (env # envs) rendered isCancelled a =
     (let a1 = runAgentTurn settings topic env a
      in if isCancelled then Some a1
         else if rendered = running_auto \<and> autoContinueAgent settings
              then agentLoop settings topic envs (sessionState a1)
                     (isCancelled \<or> sessionState a1 \<noteq> rendered) a1
              else if rendered = running_auto
                   then Some (a1\<lparr>sessionState := paused_user_input\<rparr>)
                   else Some a1)"

text \<open>The chain the effect starts: the state rendered is \<^verbatim>\<open>running_auto\<close> and nothing is
  cancelled.\<close>

definition start_agentLoop :: "AppSettings \<Rightarrow> string \<Rightarrow> exchange_env list \<Rightarrow> app \<Rightarrow> app option" where
  "start_agentLoop settings topic envs a = agentLoop settings topic envs running_auto False a"

subsection \<open>Conditions on the outside world\<close>





subsection \<open>Sessions and rounds used as concrete inputs\<close>

definition example_settings :: "rat \<Rightarrow> ValidatorFrequency \<Rightarrow> AppSettings" where
  "example_settings n frequency =
     \<lparr>maxTurns = Num n, validatorFrequency = frequency, contextWindow = medium,
      autoContinueAgent = True, model_student = ''gemini-2.5-flash'',
      model_teacher = ''gemini-2.5-flash'', model_validator = ''gemini-2.5-flash''\<rparr>"

text \<open>A session as \<^verbatim>\<open>handleStartSession\<close> leaves it in agent mode: the starter turn with the
  refined question, and the state \<^verbatim>\<open>running_auto\<close>.\<close>

definition started_session :: app where
  "started_session =
     \<lparr>turn_store =
        \<lparr>turns = map_of [(''t0'', (make_turn ''t0'' starter ''What is osmosis?'')
                                    \<lparr>modelName := Some ''gemini-2.5-flash''\<rparr>)],
         turnOrder = [''t0'']\<rparr>,
      sessionState = running_auto, error = None, isAgentRunning = False, calls = []\<rparr>"

text \<open>A session that already has three teacher turns, resumed in the state
  \<^verbatim>\<open>running_auto\<close>.\<close>

definition resumed_session :: app where
  "resumed_session =
     \<lparr>turn_store = six_turns, sessionState = running_auto, error = None,
      isAgentRunning = False, calls = []\<rparr>"

text \<open>The same settings with auto-continue switched off.\<close>

definition manual_settings :: "rat \<Rightarrow> ValidatorFrequency \<Rightarrow> AppSettings" where
  "manual_settings n frequency = (example_settings n frequency)\<lparr>autoContinueAgent := False\<rparr>"

text \<open>The \<open>n\<close>-th round of a world in which every call succeeds.\<close>

definition good_round :: "nat \<Rightarrow> exchange_env" where
  "good_round n =
     \<lparr>student_uuid = ''s'' @ string_of_nat n, teacher_uuid = ''a'' @ string_of_nat n,
      validator_uuid = ''v'' @ string_of_nat n,
      studentStream = \<lparr>chunks = [''Why '', ''is that?''], thrown = None\<rparr>,
      teacherResponse = Inr \<lparr>response_text = ''Because.'', response_groundingMetadata = None,
                             response_functionCall = None\<rparr>,
      validatorFeedback = Inr \<lparr>rating = GOOD, feedback_text = ''clear''\<rparr>\<rparr>"

text \<open>The roles of the turns of a store, in order.\<close>

definition roles_in_order :: "store \<Rightarrow> TurnRole option list" where
  "roles_in_order st =
     map (\<lambda>ident. case turns st ident of None \<Rightarrow> None | Some t \<Rightarrow> role t) (turnOrder st)"

section \<open>Properties of the credential gateway\<close>

subsection \<open>Reading the effects\<close>

lemma requests_of_append: "requests_of (xs @ ys) = requests_of xs @ requests_of ys"
  by (simp add: requests_of_def)

lemma requests_of_simps:
  "requests_of [] = []"
  "requests_of (e # evs) = request_of e @ requests_of evs"
  by (simp_all add: requests_of_def)

lemma requests_of_skips: "requests_of (map (\<lambda>(k, i). Skipped i) ks) = []"
  by (induction ks) (auto simp: requests_of_simps)

subsection \<open>The loop over the candidates\<close>

text \<open>Leaving the loop at its end: the requests made are the candidates that passed the
  check, in order.\<close>

lemma loop_end_requests:
  "rotation_loop apiCall ks s w = (None, s', w') \<Longrightarrow>
   requests_of (events s') =
     requests_of (events s) @ map (\<lambda>(key, index). (index, key)) (filter (\<lambda>(key, index). passes_validation key) ks)"
proof (induction ks arbitrary: s w)
  case Nil
  then show ?case by simp
next
  case (Cons a ks)
  obtain key index where a: "a = (key, index)" by (cases a)
  show ?case
  proof (cases "passes_validation key")
    case False
    with Cons.prems a have "rotation_loop apiCall ks
          (s\<lparr>validationErrors := validationErrors s @ [skip_message index],
             events := events s @ [Skipped index]\<rparr>) w = (None, s', w')" by simp
    from Cons.IH [OF this] False a show ?thesis
      by (simp add: requests_of_append requests_of_simps)
  next
    case True
    obtain r w1 where c: "apiCall key w = (r, w1)" by (cases "apiCall key w")
    show ?thesis
    proof (cases r)
      case (Inr res)
      with Cons.prems a True c show ?thesis by simp
    next
      case (Inl e)
      with Cons.prems a True c have "rotation_loop apiCall ks
               (s\<lparr>lastError := Some e,
                  lastErrorKeyInfo := (int index, key),
                  events := events s @
                    [ActiveKey (Some index), Requested index key, Failed index (error_message e)]\<rparr>)
               w1 = (None, s', w')" by simp
      from Cons.IH [OF this] True a show ?thesis
        by (simp add: requests_of_append requests_of_simps)
    qed
  qed
qed

text \<open>When no key of the list passes the check, the loop calls nothing and records no error.\<close>

lemma loop_all_skipped:
  "\<forall>(key, index) \<in> set ks. \<not> passes_validation key \<Longrightarrow>
   rotation_loop apiCall ks s w =
     (None,
      s\<lparr>validationErrors := validationErrors s @ map (\<lambda>(key, index). skip_message index) ks,
        events := events s @ map (\<lambda>(key, index). Skipped index) ks\<rparr>,
      w)"
  by (induction ks arbitrary: s) auto

text \<open>Candidates that fail the check are passed over until the first that passes; if its
  request succeeds the loop returns there.\<close>

lemma loop_success:
  "\<forall>(k, i) \<in> set pre. \<not> passes_validation k \<Longrightarrow> passes_validation key \<Longrightarrow>
   apiCall key w = (Inr result, w') \<Longrightarrow>
   rotation_loop apiCall (pre @ (key, index) # post) s w =
     (Some result,
      s\<lparr>validationErrors := validationErrors s @ map (\<lambda>(k, i). skip_message i) pre,
        events := events s @ map (\<lambda>(k, i). Skipped i) pre @
                    [ActiveKey (Some index), Requested index key, ActiveKey None]\<rparr>,
      w')"
  by (induction pre arbitrary: s) auto

lemma find_split:
  "find P xs = Some x \<Longrightarrow> \<exists>pre post. xs = pre @ x # post \<and> P x \<and> (\<forall>y \<in> set pre. \<not> P y)"
proof (induction xs)
  case Nil
  then show ?case by simp
next
  case (Cons a xs)
  show ?case
  proof (cases "P a")
    case True
    with Cons.prems have "x = a" by simp
    with True have "a # xs = [] @ x # xs \<and> P x \<and> (\<forall>y \<in> set []. \<not> P y)" by simp
    then show ?thesis by blast
  next
    case False
    with Cons.prems have "find P xs = Some x" by simp
    from Cons.IH [OF this] obtain pre post
      where "xs = pre @ x # post" "P x" "\<forall>y \<in> set pre. \<not> P y" by blast
    with False have "a # xs = (a # pre) @ x # post \<and> P x \<and> (\<forall>y \<in> set (a # pre). \<not> P y)"
      by simp
    then show ?thesis by blast
  qed
qed

lemma keysToTry_keys: "map fst (keysToTry apiKeys) = filter is_candidate apiKeys"
proof -
  have "map fst (filter (\<lambda>(key, index). is_candidate key) zs) = filter is_candidate (map fst zs)"
    for zs :: "(string \<times> nat) list"
    by (induction zs) auto
  then show ?thesis by (simp add: keysToTry_def)
qed

lemma keySnippet_long: "8 < length key \<Longrightarrow> keySnippet key = take 4 key @ ''...'' @ drop (length key - 4) key"
  by (simp add: keySnippet_def js_slice_def Let_def max_def min_def nat_diff_distrib')

lemma string_of_int_nat: "string_of_int (int n) = string_of_nat n"
  by (simp add: string_of_int_def)

subsection \<open>The claims\<close>

text \<open>
  Claim C4. Let the first well-formed credential of the list (non-empty after trimming, at
  least 30 characters, prefix \<^verbatim>\<open>AIza\<close>) be \<open>key\<close> at position \<open>index\<close>, and let the
  request function succeed on it in the world the gateway is called in. Then the gateway
  returns that result, the request function has been called exactly once, with that key,
  so with no malformed credential and with no later candidate, and the world is the one
  that single call left.
\<close>

theorem success_on_first_well_formed:
  assumes first: "find (\<lambda>(key, index). well_formed key) (zip apiKeys [0..<length apiKeys]) = Some (key, index)"
      and ok: "apiCall key w = (Inr result, w')"
  shows "fst (withApiKeyRotation apiKeys statuses apiCall w) = Inr result \<and>
         requests_of (fst (snd (withApiKeyRotation apiKeys statuses apiCall w))) = [(index, key)] \<and>
         snd (snd (withApiKeyRotation apiKeys statuses apiCall w)) = w'"
proof -
  from find_split [OF first] obtain pre post
    where split: "zip apiKeys [0..<length apiKeys] = pre @ (key, index) # post"
      and wf: "well_formed key"
      and before: "\<forall>(k, i) \<in> set pre. \<not> well_formed k" by auto
  let ?pre = "filter (\<lambda>(key, index). is_candidate key) pre"
  let ?post = "filter (\<lambda>(key, index). is_candidate key) post"
  from split wf have ks: "keysToTry apiKeys = ?pre @ (key, index) # ?post"
    by (simp add: keysToTry_def well_formed_def)
  from before have skipped: "\<forall>(k, i) \<in> set ?pre. \<not> passes_validation k"
    by (auto simp: well_formed_def)
  from wf have pv: "passes_validation key" by (simp add: well_formed_def)
  have run: "rotation_loop apiCall (?pre @ (key, index) # ?post) initial_rotation w =
     (Some result,
      initial_rotation\<lparr>validationErrors := validationErrors initial_rotation @ map (\<lambda>(k, i). skip_message i) ?pre,
        events := events initial_rotation @ map (\<lambda>(k, i). Skipped i) ?pre @
                    [ActiveKey (Some index), Requested index key, ActiveKey None]\<rparr>,
      w')"
    using skipped pv ok by (rule loop_success)
  have "withApiKeyRotation apiKeys statuses apiCall w =
          (Inr result,
           events initial_rotation @ map (\<lambda>(k, i). Skipped i) ?pre @
                    [ActiveKey (Some index), Requested index key, ActiveKey None], w')"
    by (simp add: withApiKeyRotation_def Let_def ks run)
  then show ?thesis
    by (simp add: requests_of_append requests_of_skips requests_of_simps initial_rotation_def)
qed

theorem success_on_first_well_formed_witness:
  "find (\<lambda>(key, index). well_formed key) (zip example_keys [0..<length example_keys])
     = Some (''AIzaVALIDLOOKINGKEYXXXXXXXXXXXXXXXX'', 1) \<and>
   always_answers ''AIzaVALIDLOOKINGKEYXXXXXXXXXXXXXXXX'' 0
     = (Inr ''answer for AIzaVALIDLOOKINGKEYXXXXXXXXXXXXXXXX'', 1) \<and>
   fst (withApiKeyRotation example_keys None always_answers 0)
     = Inr ''answer for AIzaVALIDLOOKINGKEYXXXXXXXXXXXXXXXX'' \<and>
   requests_of (fst (snd (withApiKeyRotation example_keys None always_answers 0)))
     = [(1, ''AIzaVALIDLOOKINGKEYXXXXXXXXXXXXXXXX'')] \<and>
   snd (snd (withApiKeyRotation example_keys None always_answers 0)) = 1"
proof -
  have first: "find (\<lambda>(key, index). well_formed key) (zip example_keys [0..<length example_keys])
     = Some (''AIzaVALIDLOOKINGKEYXXXXXXXXXXXXXXXX'', 1)"
    by code_simp
  have ok: "always_answers ''AIzaVALIDLOOKINGKEYXXXXXXXXXXXXXXXX'' 0
     = (Inr ''answer for AIzaVALIDLOOKINGKEYXXXXXXXXXXXXXXXX'', 1)"
    by (simp add: always_answers_def)
  from success_on_first_well_formed [where apiCall = always_answers and w = 0 and statuses = None, OF first ok] first ok
  show ?thesis by blast
qed

text \<open>
  Claim C5, as amended. If the list has at least one candidate that is non-empty after
  trimming, and every such candidate fails the local format check, the gateway throws the
  \<^verbatim>\<open>ApiKeyError\<close> "All configured API keys failed client-side validation ...", the request
  function is never called and the world is untouched.
\<close>

theorem all_malformed_raises_invalid:
  assumes some: "\<exists>key \<in> set apiKeys. is_candidate key"
      and bad: "\<forall>key \<in> set apiKeys. is_candidate key \<longrightarrow> \<not> passes_validation key"
  shows "fst (withApiKeyRotation apiKeys statuses apiCall w) = Inl (ApiKeyError all_invalid_message) \<and>
         requests_of (fst (snd (withApiKeyRotation apiKeys statuses apiCall w))) = [] \<and>
         snd (snd (withApiKeyRotation apiKeys statuses apiCall w)) = w"
proof -
  from some have "filter is_candidate apiKeys \<noteq> []" by (simp add: filter_empty_conv)
  then have ne: "keysToTry apiKeys \<noteq> []" using keysToTry_keys [of apiKeys] by auto
  have "\<forall>(k, i) \<in> set (keysToTry apiKeys). k \<in> set apiKeys \<and> is_candidate k"
    by (auto simp: keysToTry_def dest: set_zip_leftD)
  with bad have skipped: "\<forall>(k, i) \<in> set (keysToTry apiKeys). \<not> passes_validation k" by auto
  note run = loop_all_skipped [OF skipped, of apiCall initial_rotation w]
  from ne have "withApiKeyRotation apiKeys statuses apiCall w =
          (if 0 < length (validationErrors initial_rotation @ map (\<lambda>(k, i). skip_message i) (keysToTry apiKeys))
              \<and> length (validationErrors initial_rotation @ map (\<lambda>(k, i). skip_message i) (keysToTry apiKeys))
                  = length (keysToTry apiKeys)
           then (Inl (ApiKeyError all_invalid_message),
                 (events initial_rotation @ map (\<lambda>(k, i). Skipped i) (keysToTry apiKeys)) @ [ActiveKey None], w)
           else (Inl (JsError all_failed_message),
                 (events initial_rotation @ map (\<lambda>(k, i). Skipped i) (keysToTry apiKeys)) @ [ActiveKey None], w))"
    unfolding withApiKeyRotation_def Let_def run by (simp add: initial_rotation_def)
  with ne show ?thesis
    by (simp add: requests_of_append requests_of_skips requests_of_simps initial_rotation_def)
qed

theorem all_malformed_raises_invalid_witness:
  "filter is_candidate malformed_keys = [''short'', ''AIzaTooShort''] \<and>
   filter passes_validation malformed_keys = [] \<and>
   fst (withApiKeyRotation malformed_keys None always_answers 0) = Inl (ApiKeyError all_invalid_message) \<and>
   requests_of (fst (snd (withApiKeyRotation malformed_keys None always_answers 0))) = [] \<and>
   snd (snd (withApiKeyRotation malformed_keys None always_answers 0)) = 0"
proof -
  have some: "\<exists>key \<in> set malformed_keys. is_candidate key" by code_simp
  have bad: "\<forall>key \<in> set malformed_keys. is_candidate key \<longrightarrow> \<not> passes_validation key" by code_simp
  have shape: "filter is_candidate malformed_keys = [''short'', ''AIzaTooShort''] \<and>
               filter passes_validation malformed_keys = []" by code_simp
  from all_malformed_raises_invalid [OF some bad, of None always_answers 0] shape
  show ?thesis by blast
qed

text \<open>
  Claim C5 as stated fails on a list with no candidate at all: in \<open>blank_keys\<close> no entry is
  non-empty after trimming, so every candidate fails the format check, and the gateway
  throws the "No API Key has been configured ..." error, not the all-invalid one.
\<close>

theorem no_candidate_is_not_all_invalid:
  "filter is_candidate blank_keys = [] \<and>
   fst (withApiKeyRotation blank_keys None always_answers 0) = Inl (ApiKeyError no_key_message) \<and>
   fst (withApiKeyRotation blank_keys None always_answers 0) \<noteq> Inl (ApiKeyError all_invalid_message)"
  by code_simp

text \<open>When every request rejects, the loop never returns from inside.\<close>

lemma loop_never_returns:
  assumes rejects: "\<forall>key w0. isl (fst (apiCall key w0))"
  shows "fst (rotation_loop apiCall ks s w) = None"
proof (induction ks arbitrary: s w)
  case Nil
  then show ?case by simp
next
  case (Cons a ks)
  obtain key index where a: "a = (key, index)" by (cases a)
  obtain r w1 where c: "apiCall key w = (r, w1)" by (cases "apiCall key w")
  from rejects have "isl (fst (apiCall key w))" by blast
  with c obtain e where r: "r = Inl e" by (cases r) auto
  show ?case using a c r Cons.IH by simp
qed

lemma loop_end_validationErrors:
  "rotation_loop apiCall ks s w = (None, s', w') \<Longrightarrow>
   length (validationErrors s') =
     length (validationErrors s) + length (filter (\<lambda>(key, index). \<not> passes_validation key) ks)"
proof (induction ks arbitrary: s w)
  case Nil
  then show ?case by simp
next
  case (Cons a ks)
  obtain key index where a: "a = (key, index)" by (cases a)
  show ?case
  proof (cases "passes_validation key")
    case False
    with Cons.prems a have "rotation_loop apiCall ks
          (s\<lparr>validationErrors := validationErrors s @ [skip_message index],
             events := events s @ [Skipped index]\<rparr>) w = (None, s', w')" by simp
    from Cons.IH [OF this] False a show ?thesis by simp
  next
    case True
    obtain r w1 where c: "apiCall key w = (r, w1)" by (cases "apiCall key w")
    show ?thesis
    proof (cases r)
      case (Inr res)
      with Cons.prems a True c show ?thesis by simp
    next
      case (Inl e)
      with Cons.prems a True c have "rotation_loop apiCall ks
               (s\<lparr>lastError := Some e,
                  lastErrorKeyInfo := (int index, key),
                  events := events s @
                    [ActiveKey (Some index), Requested index key, Failed index (error_message e)]\<rparr>)
               w1 = (None, s', w')" by simp
      from Cons.IH [OF this] True a show ?thesis by simp
    qed
  qed
qed

text \<open>When every request rejects, the loop ends in the world after the requests for the
  candidates that pass the check, and what it has recorded is the rejection of the last of
  them, made in the world the earlier requests left, with its index and key.\<close>

lemma loop_records_last_rejection:
  assumes rejects: "\<forall>key w0. isl (fst (apiCall key w0))"
      and run: "rotation_loop apiCall ks s w = (None, s', w')"
      and some: "filter (\<lambda>(key, index). passes_validation key) ks \<noteq> []"
  shows "w' = world_after apiCall w (filter (\<lambda>(key, index). passes_validation key) ks) \<and>
         (\<exists>key index e.
            last (filter (\<lambda>(key, index). passes_validation key) ks) = (key, index) \<and>
            fst (apiCall key
                   (world_after apiCall w
                      (butlast (filter (\<lambda>(key, index). passes_validation key) ks)))) = Inl e \<and>
            lastError s' = Some e \<and> lastErrorKeyInfo s' = (int index, key))"
  using run some
proof (induction ks arbitrary: s w)
  case Nil
  then show ?case by simp
next
  case (Cons a ks)
  let ?P = "\<lambda>(key, index). passes_validation key"
  obtain key index where a: "a = (key, index)" by (cases a)
  show ?case
  proof (cases "passes_validation key")
    case False
    with Cons.prems(1) a have run1: "rotation_loop apiCall ks
          (s\<lparr>validationErrors := validationErrors s @ [skip_message index],
             events := events s @ [Skipped index]\<rparr>) w = (None, s', w')" by simp
    from False a Cons.prems(2) have "filter ?P ks \<noteq> []" by simp
    from Cons.IH [OF run1 this] False a show ?thesis by simp
  next
    case True
    obtain r w1 where c: "apiCall key w = (r, w1)" by (cases "apiCall key w")
    from rejects have "isl (fst (apiCall key w))" by blast
    with c obtain e where r: "r = Inl e" by (cases r) auto
    let ?s1 = "s\<lparr>lastError := Some e,
                  lastErrorKeyInfo := (int index, key),
                  events := events s @
                    [ActiveKey (Some index), Requested index key, Failed index (error_message e)]\<rparr>"
    from Cons.prems(1) a True c r have run1: "rotation_loop apiCall ks ?s1 w1 = (None, s', w')"
      by simp
    from c have w1: "snd (apiCall key w) = w1" by simp
    show ?thesis
    proof (cases "filter ?P ks = []")
      case True
      then have "\<forall>(k, i) \<in> set ks. \<not> passes_validation k" by (auto simp: filter_empty_conv)
      from loop_all_skipped [OF this, of apiCall ?s1 w1] run1
      have "w' = w1" "lastError s' = Some e" "lastErrorKeyInfo s' = (int index, key)" by auto
      with True \<open>passes_validation key\<close> a c r w1 show ?thesis
        by (simp add: world_after_def)
    next
      case False
      from Cons.IH [OF run1 False] obtain key' index' e'
        where w': "w' = world_after apiCall w1 (filter ?P ks)"
          and last': "last (filter ?P ks) = (key', index')"
          and rej': "fst (apiCall key' (world_after apiCall w1 (butlast (filter ?P ks)))) = Inl e'"
          and rec': "lastError s' = Some e'" "lastErrorKeyInfo s' = (int index', key')" by blast
      from \<open>passes_validation key\<close> a have f: "filter ?P (a # ks) = (key, index) # filter ?P ks"
        by simp
      have step: "world_after apiCall w ((key, index) # xs) = world_after apiCall w1 xs" for xs
        using w1 by (simp add: world_after_def)
      from False f have "last (filter ?P (a # ks)) = last (filter ?P ks)"
        and "butlast (filter ?P (a # ks)) = (key, index) # butlast (filter ?P ks)" by simp_all
      with w' last' rej' rec' f step show ?thesis by simp
    qed
  qed
qed

text \<open>
  The gateway when every request rejects and some credential is well-formed. Let the last
  candidate that passes the format check be \<open>key\<close> at \<open>index\<close>, and let the request for it,
  made in the world the earlier requests left, reject with \<open>e\<close>. The requests made are the
  candidates that pass the check, in order. If \<open>e\<close> is truthy the error thrown is "API call
  failed using key at index ... (key: first 4 characters...last 4 characters). Raw Error:"
  followed by the message of \<open>e\<close>; if \<open>e\<close> is falsy it is the plain "All available API keys
  failed" error, which names no key and no message.
\<close>

lemma gateway_when_every_request_rejects:
  assumes some: "\<exists>key \<in> set apiKeys. well_formed key"
      and rejects: "\<forall>key w0. isl (fst (apiCall key w0))"
  shows "\<exists>key index e.
           last (attempted apiKeys) = (key, index) \<and>
           fst (apiCall key (world_after apiCall w (butlast (attempted apiKeys)))) = Inl e \<and>
           fst (withApiKeyRotation apiKeys statuses apiCall w) =
             (if truthy e
              then Inl (JsError (''API call failed using key at index '' @ string_of_nat index
                      @ '' (key: '' @ take 4 key @ ''...'' @ drop (length key - 4) key
                      @ ''). Raw Error: '' @ error_message e))
              else Inl (JsError all_failed_message)) \<and>
           requests_of (fst (snd (withApiKeyRotation apiKeys statuses apiCall w)))
             = map (\<lambda>(key, index). (index, key)) (attempted apiKeys) \<and>
           snd (snd (withApiKeyRotation apiKeys statuses apiCall w))
             = world_after apiCall w (attempted apiKeys)"
proof -
  let ?ks = "keysToTry apiKeys"
  let ?P = "\<lambda>(key, index). passes_validation key"
  from some obtain k where k: "k \<in> set apiKeys" "is_candidate k" "passes_validation k"
    by (auto simp: well_formed_def)
  then have "k \<in> set (filter is_candidate apiKeys)" by simp
  then have "k \<in> fst ` set ?ks" using keysToTry_keys [of apiKeys] by (metis set_map)
  with k(3) have "\<exists>x \<in> set ?ks. ?P x" by force
  then have valid: "filter ?P ?ks \<noteq> []" by (simp add: filter_empty_conv)
  then have ne: "?ks \<noteq> []" by auto
  obtain res s w1 where run: "rotation_loop apiCall ?ks initial_rotation w = (res, s, w1)"
    by (cases "rotation_loop apiCall ?ks initial_rotation w") auto
  from loop_never_returns [OF rejects, of ?ks initial_rotation w] run have "res = None" by simp
  with run have run': "rotation_loop apiCall ?ks initial_rotation w = (None, s, w1)" by simp
  from loop_records_last_rejection [OF rejects run' valid] obtain key index e
    where w1: "w1 = world_after apiCall w (filter ?P ?ks)"
      and last: "last (filter ?P ?ks) = (key, index)"
      and rej: "fst (apiCall key (world_after apiCall w (butlast (filter ?P ?ks)))) = Inl e"
      and rec: "lastError s = Some e" "lastErrorKeyInfo s = (int index, key)" by blast
  from valid last have "(key, index) \<in> set (filter ?P ?ks)" by (metis last_in_set)
  then have "passes_validation key" by auto
  then have long: "8 < length key" by (simp add: passes_validation_def)
  have count: "length (validationErrors s) = length (filter (\<lambda>(key, index). \<not> passes_validation key) ?ks)"
    using loop_end_validationErrors [OF run'] by (simp add: initial_rotation_def)
  have compl: "(\<lambda>x. \<not> ?P x) = (\<lambda>(key, index). \<not> passes_validation key)" by auto
  have "length (filter ?P ?ks) + length (filter (\<lambda>x. \<not> ?P x) ?ks) = length ?ks"
    by (rule sum_length_filter_compl)
  then have "length (filter ?P ?ks) + length (validationErrors s) = length ?ks"
    unfolding compl count .
  moreover from valid have "0 < length (filter ?P ?ks)" by simp
  ultimately have fewer: "length (validationErrors s) \<noteq> length ?ks" by linarith
  have out: "withApiKeyRotation apiKeys statuses apiCall w =
          ((if truthy e
            then Inl (JsError (call_failed_message (int index) (keySnippet key) (error_message e)))
            else Inl (JsError all_failed_message)),
           events s @ [ActiveKey None], w1)"
    using ne fewer by (simp add: withApiKeyRotation_def Let_def run' rec)
  have msg: "call_failed_message (int index) (keySnippet key) (error_message e) =
          ''API call failed using key at index '' @ string_of_nat index
                      @ '' (key: '' @ take 4 key @ ''...'' @ drop (length key - 4) key
                      @ ''). Raw Error: '' @ error_message e"
    by (simp add: call_failed_message_def keySnippet_long [OF long] string_of_int_nat)
  have req: "requests_of (events s @ [ActiveKey None]) = map (\<lambda>(key, index). (index, key)) (filter ?P ?ks)"
    using loop_end_requests [OF run']
    by (simp add: requests_of_append initial_rotation_def requests_of_simps)
  from last rej out msg req w1 show ?thesis
    unfolding attempted_def by auto
qed


text \<open>
  Claim C10. For every credential list, request function and world, the gateway gives the
  same outcome, the same effects (so the same remote attempts) and the same final world
  whichever status list it is handed: the status argument is never consulted.
\<close>

theorem withApiKeyRotation_ignores_statuses:
  "withApiKeyRotation apiKeys statuses1 apiCall w = withApiKeyRotation apiKeys statuses2 apiCall w"
  by (simp add: withApiKeyRotation_def)

section \<open>Properties of the turn store\<close>

subsection \<open>Context window\<close>

text \<open>For a positive \<open>n\<close>, \<^verbatim>\<open>slice(-n)\<close> is the last \<open>n\<close> elements. (For 0 it would be the
  whole array; no window size is 0.)\<close>

lemma js_slice_last_n: "0 < n \<Longrightarrow> js_slice xs (- n) None = last_n (nat n) xs"
  by (auto simp: js_slice_def last_n_def Let_def max_def min_def nat_diff_distrib')

lemma filter_Boolean_map:
  "filter_Boolean (map m ids) = concat (map (\<lambda>ident. case m ident of None \<Rightarrow> [] | Some t \<Rightarrow> [t]) ids)"
  by (induction ids) (auto split: option.splits)

lemma getContextString_windowedContext:
  "getContextString cw st = windowedContext (nat (CONTEXT_WINDOW_SIZES cw)) st"
  by (cases cw)
     (simp_all add: getContextString_def windowedContext_def window_turns_def blank_line_def
        js_slice_last_n filter_Boolean_map)

text \<open>
  Claim C2, as amended. For every store and window size (short 4, medium 8, long 12) the
  context is made from the last \<open>n\<close> ids of the order (all of them when there are fewer), in
  their order: an id without a turn in the record is passed over, every other turn is
  rendered as \<^verbatim>\<open>[role]\<close>, a newline and its content, whether or not the content is empty,
  and the renderings are joined by blank lines. On the six turns of \<open>six_turns\<close> and the short
  window, only the last four appear.
\<close>

theorem getContextString_window:
  "getContextString short st = windowedContext 4 st \<and>
   getContextString medium st = windowedContext 8 st \<and>
   getContextString long st = windowedContext 12 st \<and>
   length (last_n n (turnOrder st)) = min n (length (turnOrder st)) \<and>
   turnOrder st = take (length (turnOrder st) - n) (turnOrder st) @ last_n n (turnOrder st) \<and>
   getContextString short six_turns =
     ''[student]'' @ [CHR 0x0A] @ ''q2'' @ blank_line @ ''[teacher]'' @ [CHR 0x0A] @ ''a2'' @ blank_line @
     ''[student]'' @ [CHR 0x0A] @ ''q3'' @ blank_line @ ''[teacher]'' @ [CHR 0x0A] @ ''a3''"
proof -
  have six: "getContextString short six_turns =
     ''[student]'' @ [CHR 0x0A] @ ''q2'' @ blank_line @ ''[teacher]'' @ [CHR 0x0A] @ ''a2'' @ blank_line @
     ''[student]'' @ [CHR 0x0A] @ ''q3'' @ blank_line @ ''[teacher]'' @ [CHR 0x0A] @ ''a3''"
    by code_simp
  have sizes: "getContextString short st = windowedContext 4 st \<and>
   getContextString medium st = windowedContext 8 st \<and>
   getContextString long st = windowedContext 12 st"
    by (simp add: getContextString_windowedContext)
  have suffix: "length (last_n n (turnOrder st)) = min n (length (turnOrder st)) \<and>
   turnOrder st = take (length (turnOrder st) - n) (turnOrder st) @ last_n n (turnOrder st)"
    by (auto simp: last_n_def)
  from sizes suffix six show ?thesis by blast
qed

text \<open>
  Claim C2 as stated fails where a turn has empty content: the validator turn of
  \<open>validated_exchange\<close> is not skipped, it is rendered as \<^verbatim>\<open>[validator]\<close> and a newline.
\<close>

theorem empty_content_is_not_skipped:
  "getContextString short validated_exchange \<noteq> windowedContext_skipping_empty 4 validated_exchange"
  by code_simp

subsection \<open>Update of an absent id\<close>

lemma spread_field_None [simp]: "spread_field None y = y"
  by (cases y) (simp_all add: spread_field_def)

lemma spread_empty_object: "spread empty_object updates = updates"
  by (simp add: spread_def empty_object_def)

text \<open>
  Claim C3, as amended. For an id that is absent from the store, \<^verbatim>\<open>updateTurn\<close> throws
  nothing and leaves the turn order and every other entry of the turn record as they were;
  the record gains an entry under that id, which holds the properties of the update and
  nothing else.
\<close>

theorem updateTurn_absent:
  assumes "turns st ident = None"
  shows "updateTurn ident updates st = st\<lparr>turns := (turns st)(ident \<mapsto> updates)\<rparr> \<and>
         turnOrder (updateTurn ident updates st) = turnOrder st \<and>
         turns (updateTurn ident updates st) ident = Some updates \<and>
         (turns (updateTurn ident updates st))(ident := None) = turns st"
  using assms by (auto simp: updateTurn_def spread_empty_object)

theorem updateTurn_absent_witness:
  "turns empty_store ''t9'' = None \<and>
   updateTurn ''t9'' (empty_object\<lparr>content := Some ''late''\<rparr>) empty_store
     = empty_store\<lparr>turns := (turns empty_store)(''t9'' \<mapsto> empty_object\<lparr>content := Some ''late''\<rparr>)\<rparr> \<and>
   turnOrder (updateTurn ''t9'' (empty_object\<lparr>content := Some ''late''\<rparr>) empty_store) = []"
proof -
  have a: "turns empty_store ''t9'' = None" by (simp add: empty_store_def)
  from updateTurn_absent [OF a, of "empty_object\<lparr>content := Some ''late''\<rparr>"] a
  show ?thesis by (simp add: empty_store_def)
qed

text \<open>
  Claim C3 as stated fails: after a late update of the absent id \<^verbatim>\<open>t9\<close> the turn record
  of the empty store is no longer what it was.
\<close>

theorem updateTurn_absent_counterexample:
  "turns empty_store ''t9'' = None \<and>
   turns (updateTurn ''t9'' (empty_object\<lparr>content := Some ''late''\<rparr>) empty_store) ''t9''
     = Some (empty_object\<lparr>content := Some ''late''\<rparr>) \<and>
   turns (updateTurn ''t9'' (empty_object\<lparr>content := Some ''late''\<rparr>) empty_store)
     \<noteq> turns empty_store"
proof -
  have a: "turns empty_store ''t9'' = None" by (simp add: empty_store_def)
  have b: "turns (updateTurn ''t9'' (empty_object\<lparr>content := Some ''late''\<rparr>) empty_store) ''t9''
     = Some (empty_object\<lparr>content := Some ''late''\<rparr>)"
    by (simp add: updateTurn_def empty_store_def spread_empty_object)
  from a b have "turns (updateTurn ''t9'' (empty_object\<lparr>content := Some ''late''\<rparr>) empty_store) ''t9''
     \<noteq> turns empty_store ''t9''" by simp
  then have "turns (updateTurn ''t9'' (empty_object\<lparr>content := Some ''late''\<rparr>) empty_store)
     \<noteq> turns empty_store" by metis
  with a b show ?thesis by blast
qed

subsection \<open>Streaming assembler\<close>

lemma spread_content:
  "spread t (empty_object\<lparr>content := Some c\<rparr>) = t\<lparr>content := Some c\<rparr>"
  by (simp add: spread_def empty_object_def spread_field_def)

lemma spread_isStreaming:
  "spread t (empty_object\<lparr>isStreaming := Some b\<rparr>) = t\<lparr>isStreaming := Some b\<rparr>"
  by (simp add: spread_def empty_object_def spread_field_def)

text \<open>The \<^verbatim>\<open>for await\<close> loop on a turn that is in the store: its content grows by the
  chunks, nothing else changes.\<close>

lemma stream_chunks:
  "turns st ident = Some t \<Longrightarrow> content t = Some acc \<Longrightarrow>
   foldl (stream_chunk ident) (acc, st) cs =
     (acc @ concat cs, st\<lparr>turns := (turns st)(ident \<mapsto> t\<lparr>content := Some (acc @ concat cs)\<rparr>)\<rparr>)"
proof (induction cs arbitrary: acc st t)
  case Nil
  from Nil have "t\<lparr>content := Some acc\<rparr> = t" by simp
  with Nil have "(turns st)(ident \<mapsto> t\<lparr>content := Some acc\<rparr>) = turns st" by (simp add: map_upd_triv)
  then show ?case by simp
next
  case (Cons c cs)
  let ?t1 = "t\<lparr>content := Some (acc @ c)\<rparr>"
  let ?st1 = "st\<lparr>turns := (turns st)(ident \<mapsto> ?t1)\<rparr>"
  from Cons.prems have step: "stream_chunk ident (acc, st) c = (acc @ c, ?st1)"
    by (simp add: stream_chunk_def updateTurn_def spread_content Let_def)
  have "foldl (stream_chunk ident) (acc, st) (c # cs) = foldl (stream_chunk ident) (acc @ c, ?st1) cs"
    by (simp add: step)
  also have "\<dots> = ((acc @ c) @ concat cs,
                 ?st1\<lparr>turns := (turns ?st1)(ident \<mapsto> ?t1\<lparr>content := Some ((acc @ c) @ concat cs)\<rparr>)\<rparr>)"
    by (rule Cons.IH) simp_all
  also have "\<dots> = (acc @ concat (c # cs),
                 st\<lparr>turns := (turns st)(ident \<mapsto> t\<lparr>content := Some (acc @ concat (c # cs))\<rparr>)\<rparr>)"
    by simp
  finally show ?case .
qed

text \<open>
  Claim C7. On a generator that ends without yielding, the assembler returns \<^verbatim>\<open>null\<close> and
  the store is untouched. On the chunks \<open>first # rest\<close> it appends exactly one id to the order;
  the turn it returns is the one it created, with content \<open>first\<close> and \<^verbatim>\<open>isStreaming\<close> true;
  at the end the store holds under that id the same turn with the concatenation of all
  chunks as content and \<^verbatim>\<open>isStreaming\<close> false, and \<^verbatim>\<open>fullContent\<close> is that concatenation.
  In between, when the chunks \<open>seen\<close> have been pulled after the first, the content is the
  concatenation so far and \<^verbatim>\<open>isStreaming\<close> is still true.
\<close>

theorem createTurnFromStream_assembles:
  "createTurnFromStream uuid turnData \<lparr>chunks = [], thrown = None\<rparr> st = (Inr (None, []), st) \<and>
   createTurnFromStream uuid turnData \<lparr>chunks = first # rest, thrown = None\<rparr> st =
     (Inr (Some (turnData\<lparr>content := Some first, isStreaming := Some True, turn_id := Some uuid\<rparr>),
           concat (first # rest)),
      st\<lparr>turns := (turns st)(uuid \<mapsto>
            turnData\<lparr>content := Some (concat (first # rest)), isStreaming := Some False,
                     turn_id := Some uuid\<rparr>),
         turnOrder := turnOrder st @ [uuid]\<rparr>) \<and>
   foldl (stream_chunk uuid)
     (first, snd (addTurn uuid (turnData\<lparr>content := Some first, isStreaming := Some True\<rparr>) st)) seen =
     (concat (first # seen),
      st\<lparr>turns := (turns st)(uuid \<mapsto>
            turnData\<lparr>content := Some (concat (first # seen)), isStreaming := Some True,
                     turn_id := Some uuid\<rparr>),
         turnOrder := turnOrder st @ [uuid]\<rparr>)"
proof -
  let ?new = "turnData\<lparr>content := Some first, isStreaming := Some True, turn_id := Some uuid\<rparr>"
  let ?st1 = "st\<lparr>turns := (turns st)(uuid \<mapsto> ?new), turnOrder := turnOrder st @ [uuid]\<rparr>"
  have add: "addTurn uuid (turnData\<lparr>content := Some first, isStreaming := Some True\<rparr>) st = (?new, ?st1)"
    by (simp add: addTurn_def Let_def)
  have loop: "foldl (stream_chunk uuid) (first, ?st1) cs =
     (first @ concat cs, ?st1\<lparr>turns := (turns ?st1)(uuid \<mapsto> ?new\<lparr>content := Some (first @ concat cs)\<rparr>)\<rparr>)"
    for cs
    by (rule stream_chunks) simp_all
  have empty: "createTurnFromStream uuid turnData \<lparr>chunks = [], thrown = None\<rparr> st = (Inr (None, []), st)"
    by (simp add: createTurnFromStream_def)
  have "createTurnFromStream uuid turnData \<lparr>chunks = first # rest, thrown = None\<rparr> st =
     (Inr (Some ?new, first @ concat rest),
      updateTurn uuid (empty_object\<lparr>isStreaming := Some False\<rparr>)
        (?st1\<lparr>turns := (turns ?st1)(uuid \<mapsto> ?new\<lparr>content := Some (first @ concat rest)\<rparr>)\<rparr>))"
    by (simp add: createTurnFromStream_def add loop)
  also have "updateTurn uuid (empty_object\<lparr>isStreaming := Some False\<rparr>)
        (?st1\<lparr>turns := (turns ?st1)(uuid \<mapsto> ?new\<lparr>content := Some (first @ concat rest)\<rparr>)\<rparr>) =
      st\<lparr>turns := (turns st)(uuid \<mapsto>
            turnData\<lparr>content := Some (concat (first # rest)), isStreaming := Some False,
                     turn_id := Some uuid\<rparr>),
         turnOrder := turnOrder st @ [uuid]\<rparr>"
    by (cases st; cases turnData) (simp add: updateTurn_def spread_isStreaming)
  finally have whole: "createTurnFromStream uuid turnData \<lparr>chunks = first # rest, thrown = None\<rparr> st =
     (Inr (Some ?new, concat (first # rest)),
      st\<lparr>turns := (turns st)(uuid \<mapsto>
            turnData\<lparr>content := Some (concat (first # rest)), isStreaming := Some False,
                     turn_id := Some uuid\<rparr>),
         turnOrder := turnOrder st @ [uuid]\<rparr>)" by simp
  have "foldl (stream_chunk uuid)
     (first, snd (addTurn uuid (turnData\<lparr>content := Some first, isStreaming := Some True\<rparr>) st)) seen =
     (first @ concat seen,
      ?st1\<lparr>turns := (turns ?st1)(uuid \<mapsto> ?new\<lparr>content := Some (first @ concat seen)\<rparr>)\<rparr>)"
    by (simp add: add loop)
  also have "?st1\<lparr>turns := (turns ?st1)(uuid \<mapsto> ?new\<lparr>content := Some (first @ concat seen)\<rparr>)\<rparr> =
      st\<lparr>turns := (turns st)(uuid \<mapsto>
            turnData\<lparr>content := Some (concat (first # seen)), isStreaming := Some True,
                     turn_id := Some uuid\<rparr>),
         turnOrder := turnOrder st @ [uuid]\<rparr>"
    by (cases st; cases turnData) simp
  finally have during: "foldl (stream_chunk uuid)
     (first, snd (addTurn uuid (turnData\<lparr>content := Some first, isStreaming := Some True\<rparr>) st)) seen =
     (concat (first # seen),
      st\<lparr>turns := (turns st)(uuid \<mapsto>
            turnData\<lparr>content := Some (concat (first # seen)), isStreaming := Some True,
                     turn_id := Some uuid\<rparr>),
         turnOrder := turnOrder st @ [uuid]\<rparr>)" by simp
  from empty whole during show ?thesis by blast
qed

subsection \<open>Resend\<close>

lemma findIndex_takeWhile:
  "x \<in> set xs \<Longrightarrow> findIndex (\<lambda>y. y = x) xs = int (length (takeWhile (\<lambda>y. y \<noteq> x) xs))"
  by (induction xs) (auto simp: Let_def)

lemma js_slice_take: "0 \<le> k \<Longrightarrow> js_slice xs 0 (Some k) = take (nat k) xs"
  by (auto simp: js_slice_def Let_def min_def)

lemma keep_turns: "foldl (keep_turn old) acc ids = acc ++ (old |` set ids)"
proof (induction ids arbitrary: acc)
  case Nil
  then show ?case by simp
next
  case (Cons i ids)
  have "keep_turn old acc i ++ (old |` set ids) = acc ++ (old |` set (i # ids))"
    by (rule ext) (auto simp: keep_turn_def map_add_def restrict_map_def split: option.splits)
  with Cons.IH [of "keep_turn old acc i"] show ?case by simp
qed

text \<open>
  Claim C9. For a turn of role \<^verbatim>\<open>user\<close> that is in the turn record and in the order,
  \<^verbatim>\<open>handleResend\<close> leaves as order the ids strictly before the first occurrence of the
  target, and as turn record the old one restricted to those ids: the target and everything
  after it are gone from both. The payload it sets for resubmission is the content of the
  target and its attachments, and the resubmission appends one new user turn with that
  content to the truncated store. Resending \<^verbatim>\<open>q1\<close> in the store \<^verbatim>\<open>[q1, a1, q2]\<close> leaves the
  empty store.
\<close>

theorem handleResend_truncates:
  assumes present: "turns st turnId = Some t"
      and by_user: "role t = Some user"
      and listed: "turnId \<in> set (turnOrder st)"
  shows "handleResend turnId st =
           (st\<lparr>turnOrder := takeWhile (\<lambda>ident. ident \<noteq> turnId) (turnOrder st),
               turns := turns st |` set (takeWhile (\<lambda>ident. ident \<noteq> turnId) (turnOrder st))\<rparr>,
            Some \<lparr>payload_content = content t,
                  payload_attachments = (case attachments t of None \<Rightarrow> [] | Some a \<Rightarrow> a)\<rparr>) \<and>
         turnId \<notin> set (turnOrder (fst (handleResend turnId st))) \<and>
         turns (fst (handleResend turnId st)) turnId = None \<and>
         (\<exists>after. turnOrder st = turnOrder (fst (handleResend turnId st)) @ turnId # after) \<and>
         turnOrder (snd (resubmit uuid
             \<lparr>payload_content = content t,
              payload_attachments = (case attachments t of None \<Rightarrow> [] | Some a \<Rightarrow> a)\<rparr>
             (fst (handleResend turnId st))))
           = takeWhile (\<lambda>ident. ident \<noteq> turnId) (turnOrder st) @ [uuid] \<and>
         content (fst (resubmit uuid
             \<lparr>payload_content = content t,
              payload_attachments = (case attachments t of None \<Rightarrow> [] | Some a \<Rightarrow> a)\<rparr>
             (fst (handleResend turnId st)))) = content t \<and>
         role (fst (resubmit uuid
             \<lparr>payload_content = content t,
              payload_attachments = (case attachments t of None \<Rightarrow> [] | Some a \<Rightarrow> a)\<rparr>
             (fst (handleResend turnId st)))) = Some user"
proof -
  let ?before = "takeWhile (\<lambda>ident. ident \<noteq> turnId) (turnOrder st)"
  from listed have idx: "findIndex (\<lambda>ident. ident = turnId) (turnOrder st) = int (length ?before)"
    by (rule findIndex_takeWhile)
  have cut: "js_slice (turnOrder st) 0 (Some (int (length ?before))) = ?before"
    by (simp add: js_slice_take takeWhile_eq_take [symmetric])
  have run: "handleResend turnId st =
           (st\<lparr>turnOrder := ?before, turns := turns st |` set ?before\<rparr>,
            Some \<lparr>payload_content = content t,
                  payload_attachments = (case attachments t of None \<Rightarrow> [] | Some a \<Rightarrow> a)\<rparr>)"
    using present by_user
    by (simp add: handleResend_def Let_def idx cut keep_turns)
  have notin: "turnId \<notin> set ?before" by (auto dest: set_takeWhileD)
  from listed have "dropWhile (\<lambda>ident. ident \<noteq> turnId) (turnOrder st) \<noteq> []" by auto
  then obtain a after where dw: "dropWhile (\<lambda>ident. ident \<noteq> turnId) (turnOrder st) = a # after"
    by (cases "dropWhile (\<lambda>ident. ident \<noteq> turnId) (turnOrder st)") auto
  then have "a = turnId" using hd_dropWhile [of "\<lambda>ident. ident \<noteq> turnId" "turnOrder st"] by force
  with dw have "turnOrder st = ?before @ turnId # after"
    using takeWhile_dropWhile_id [of "\<lambda>ident. ident \<noteq> turnId" "turnOrder st"] by simp
  then have "\<exists>after. turnOrder st = ?before @ turnId # after" by blast
  with run notin show ?thesis
    by (simp add: restrict_map_def resubmit_def addTurn_def Let_def)
qed

theorem handleResend_truncates_witness:
  "turns q1_a1_q2 ''q1'' = Some (make_turn ''q1'' user ''first question'') \<and>
   role (make_turn ''q1'' user ''first question'') = Some user \<and>
   ''q1'' \<in> set (turnOrder q1_a1_q2) \<and>
   turnOrder (fst (handleResend ''q1'' q1_a1_q2)) = [] \<and>
   turns (fst (handleResend ''q1'' q1_a1_q2)) = Map.empty \<and>
   snd (handleResend ''q1'' q1_a1_q2)
     = Some \<lparr>payload_content = Some ''first question'', payload_attachments = []\<rparr>"
proof -
  have present: "turns q1_a1_q2 ''q1'' = Some (make_turn ''q1'' user ''first question'')"
    by (simp add: q1_a1_q2_def)
  have by_user: "role (make_turn ''q1'' user ''first question'') = Some user"
    by (simp add: make_turn_def)
  have listed: "''q1'' \<in> set (turnOrder q1_a1_q2)" by (simp add: q1_a1_q2_def)
  have order: "takeWhile (\<lambda>ident. ident \<noteq> ''q1'') (turnOrder q1_a1_q2) = []"
    by (simp add: q1_a1_q2_def)
  from handleResend_truncates [OF present by_user listed] present by_user listed
  show ?thesis by (simp add: order make_turn_def empty_object_def)
qed

section \<open>Properties of the agent loop\<close>

subsection \<open>The validation test\<close>

text \<open>As a function of the count it is given, the test is never true when validation is
  disabled, and true at the multiples of 3 and of 5 for those two frequencies.\<close>

lemma isValidationTurn_disabled: "isValidationTurn disabled c = False"
  by (simp add: isValidationTurn_def Let_def)

lemma isValidationTurn_every_3: "isValidationTurn every_3_turns c = (c mod 3 = 0)"
proof -
  have parts: "split_on CHR ''_'' (frequency_text every_3_turns) = [''every'', ''3'', ''turns'']"
    by code_simp
  have num: "parseInt10 ''3'' = Some 3" by code_simp
  have "isValidationTurn every_3_turns c = (int c mod 3 = 0)"
    unfolding isValidationTurn_def Let_def parts
    by (simp add: js_nth_def num js_rem_def sgn_if)
  also have "\<dots> = (c mod 3 = 0)" by presburger
  finally show ?thesis .
qed

lemma isValidationTurn_every_5: "isValidationTurn every_5_turns c = (c mod 5 = 0)"
proof -
  have parts: "split_on CHR ''_'' (frequency_text every_5_turns) = [''every'', ''5'', ''turns'']"
    by code_simp
  have num: "parseInt10 ''5'' = Some 5" by code_simp
  have "isValidationTurn every_5_turns c = (int c mod 5 = 0)"
    unfolding isValidationTurn_def Let_def parts
    by (simp add: js_nth_def num js_rem_def sgn_if)
  also have "\<dots> = (c mod 5 = 0)" by presburger
  finally show ?thesis .
qed

text \<open>For \<^verbatim>\<open>every_turn\<close> the second part of the name is \<^verbatim>\<open>turn\<close>, which is not empty, so
  \<^verbatim>\<open>'1'\<close> does not stand in for it; \<^verbatim>\<open>parseInt\<close> gives \<^verbatim>\<open>NaN\<close> and the test is false for
  every count.\<close>

lemma isValidationTurn_every_turn: "isValidationTurn every_turn c = False"
proof -
  have parts: "split_on CHR ''_'' (frequency_text every_turn) = [''every'', ''turn'']"
    by code_simp
  have num: "parseInt10 ''turn'' = None" by code_simp
  show ?thesis
    unfolding isValidationTurn_def Let_def parts
    by (simp add: js_nth_def num js_rem_def)
qed

text \<open>
  Claim C1, what the code does where the claim fails. Under \<^verbatim>\<open>every_turn\<close> validation is
  due at no count, so the first exchange of a started session ends with the teacher turn and
  no validator turn. And the count that is tested is taken from the turns captured before
  the exchange, so it does not include the answer just given: under \<^verbatim>\<open>every_3_turns\<close> the
  first exchange, tested at count 0, gets a validator turn.
\<close>

theorem validation_schedule_as_coded:
  "isValidationTurn every_turn c = False \<and>
   roles_in_order (turn_store (runAgentTurn (example_settings 10 every_turn) ''osmosis''
       (good_round 1) started_session))
     = [Some starter, Some student, Some teacher] \<and>
   isValidationTurn every_3_turns 0 = True \<and>
   roles_in_order (turn_store (runAgentTurn (example_settings 10 every_3_turns) ''osmosis''
       (good_round 1) started_session))
     = [Some starter, Some student, Some teacher, Some validator]"
proof -
  have never: "isValidationTurn every_turn c = False" by (rule isValidationTurn_every_turn)
  have first: "roles_in_order (turn_store (runAgentTurn (example_settings 10 every_turn) ''osmosis''
       (good_round 1) started_session))
     = [Some starter, Some student, Some teacher]" by code_simp
  have zero: "isValidationTurn every_3_turns 0 = True" by code_simp
  have stale: "roles_in_order (turn_store (runAgentTurn (example_settings 10 every_3_turns) ''osmosis''
       (good_round 1) started_session))
     = [Some starter, Some student, Some teacher, Some validator]" by code_simp
  from never first zero stale show ?thesis by blast
qed

subsection \<open>Counting teacher turns\<close>










subsection \<open>The phases of one exchange\<close>






subsection \<open>One invocation of \<^verbatim>\<open>runAgentTurn\<close>\<close>





subsection \<open>The loop\<close>



text \<open>One step of the chain, with the test of each branch written out.\<close>

lemma agentLoop_unfold:
  "agentLoop settings topic (env # envs) rendered isCancelled a =
     (if isCancelled then Some (runAgentTurn settings topic env a)
      else if rendered = running_auto \<and> autoContinueAgent settings
           then agentLoop settings topic envs (sessionState (runAgentTurn settings topic env a))
                  (sessionState (runAgentTurn settings topic env a) \<noteq> rendered)
                  (runAgentTurn settings topic env a)
           else if rendered = running_auto
                then Some ((runAgentTurn settings topic env a)\<lparr>sessionState := paused_user_input\<rparr>)
                else Some (runAgentTurn settings topic env a))"
  unfolding agentLoop.simps Let_def by (cases isCancelled) simp_all

text \<open>The shape of a chain. With auto-continue off it is one round, after which the state
  is set to \<^verbatim>\<open>paused_user_input\<close> whatever the round has set. With auto-continue on, a
  round that leaves \<^verbatim>\<open>running_auto\<close> is followed by the rest of the chain, and a round that
  sets another state is followed by exactly one more invocation.\<close>

lemma chain_without_auto_continue:
  "\<not> autoContinueAgent settings \<Longrightarrow>
   start_agentLoop settings topic (env # envs) a =
     Some ((runAgentTurn settings topic env a)\<lparr>sessionState := paused_user_input\<rparr>)"
  unfolding start_agentLoop_def agentLoop_unfold by simp

lemma chain_with_auto_continue:
  "autoContinueAgent settings \<Longrightarrow>
   start_agentLoop settings topic (env # next_env # envs) a =
     (if sessionState (runAgentTurn settings topic env a) = running_auto
      then start_agentLoop settings topic (next_env # envs) (runAgentTurn settings topic env a)
      else Some (runAgentTurn settings topic next_env (runAgentTurn settings topic env a)))"
  unfolding start_agentLoop_def agentLoop_unfold [of _ _ env] 
  by (cases "sessionState (runAgentTurn settings topic env a) = running_auto")
     (simp_all only: agentLoop_unfold simp_thms if_True if_False)

text \<open>So with auto-continue off the state \<^verbatim>\<open>finished\<close> does not last: a session resumed
  with three teacher turns under the limit 3 ends the round in \<^verbatim>\<open>paused_user_input\<close>,
  while with auto-continue on it ends in \<^verbatim>\<open>finished\<close>.\<close>

lemma finished_is_overwritten_without_auto_continue:
  "sessionState (runAgentTurn (manual_settings 3 every_3_turns) ''osmosis'' (good_round 1)
                   resumed_session) = finished \<and>
   map_option sessionState
     (start_agentLoop (manual_settings 3 every_3_turns) ''osmosis'' [good_round 1, good_round 2]
        resumed_session) = Some paused_user_input \<and>
   map_option sessionState
     (start_agentLoop (example_settings 3 every_3_turns) ''osmosis'' [good_round 1, good_round 2]
        resumed_session) = Some finished"
  by code_simp






end
